theory Spec2Isabelle
  imports Main
begin

section \<open>The posts router of the blog backend\<close>

text \<open>
  The development embeds the request handlers of the posts router (the Express router of
  the backend: list, read, create, update, delete, like and the AI endpoints) over an
  explicit document store. Each handler takes the request and the store and returns the
  reply together with the store it leaves behind.
\<close>

subsection \<open>Strings\<close>

text \<open>
  Strings are byte lists. \<open>toLowerCase\<close> and \<open>trim\<close> are modelled on ASCII:
  upper-case Latin letters are folded, and the white space removed is space, tab, line
  feed, vertical tab, form feed and carriage return.
\<close>

definition toLowerCase_char :: "char \<Rightarrow> char" where
  "toLowerCase_char c =
     (let n = (of_char c :: nat) in if 65 \<le> n \<and> n \<le> 90 then char_of (n + 32) else c)"

definition toLowerCase :: "string \<Rightarrow> string" where
  "toLowerCase s = map toLowerCase_char s"

definition is_space :: "char \<Rightarrow> bool" where
  "is_space c = ((of_char c :: nat) = 32 \<or> (9 \<le> (of_char c :: nat) \<and> (of_char c :: nat) \<le> 13))"

definition trim :: "string \<Rightarrow> string" where
  "trim s = rev (dropWhile is_space (rev (dropWhile is_space s)))"

text \<open>\<open>s.split(',')\<close>: the empty string splits into one empty piece.\<close>

fun split_comma :: "string \<Rightarrow> string list" where
  "split_comma [] = [[]]"
| "split_comma (c # cs) =
     (if c = CHR '','' then [] # split_comma cs
      else (case split_comma cs of
              [] \<Rightarrow> [[c]]
            | x # xs \<Rightarrow> (c # x) # xs))"

subsection \<open>Documents and the store\<close>

text \<open>
  An ObjectId is identified with its text of 24 hexadecimal digits, which is what
  \<open>toString()\<close> returns. The Post and Tag models of the repository are not part of the
  sources at hand; the fields below are the ones the handlers read and write.
\<close>

type_synonym objid = string

record tag_doc =
  tag_id :: objid
  name :: string
  postCount :: int

record post_doc =
  post_id :: objid
  title :: string
  content :: string
  excerpt :: "string option"
  coverImage :: string
  author :: objid
  tags :: "objid list"
  status :: "string option"
  seoTitle :: "string option"
  seoDescription :: "string option"
  featured :: bool
  slug :: string
  viewCount :: int
  likeCount :: int

text \<open>
  The store holds the two collections and a counter from which fresh ObjectIds are drawn
  (the driver's generator is a supply of distinct ids).
\<close>

record db =
  Post_coll :: "post_doc list"
  Tag_coll :: "tag_doc list"
  oid_counter :: nat

definition hex_digit :: "nat \<Rightarrow> char" where
  "hex_digit n = ''0123456789abcdef'' ! (n mod 16)"

fun hex_text :: "nat \<Rightarrow> nat \<Rightarrow> string" where
  "hex_text 0 n = []"
| "hex_text (Suc w) n = hex_text w (n div 16) @ [hex_digit n]"

definition new_ObjectId :: "db \<Rightarrow> objid" where
  "new_ObjectId d = hex_text 24 (oid_counter d)"

definition is_hex :: "char \<Rightarrow> bool" where
  "is_hex c = (c \<in> set ''0123456789abcdefABCDEF'')"

text \<open>
  The cast of a string to an ObjectId: 24 hexadecimal digits are accepted in either case
  and denote the id whose text is the lower-case spelling.
\<close>

definition cast_ObjectId :: "string \<Rightarrow> objid option" where
  "cast_ObjectId s = (if length s = 24 \<and> list_all is_hex s then Some (toLowerCase s) else None)"

subsection \<open>Errors and replies\<close>

record js_error =
  err_name :: string
  err_message :: string
  err_stack :: string

text \<open>
  The error Mongoose raises when a value that is not the text of an ObjectId is used as
  an \<open>_id\<close>. The handlers only test its name.
\<close>

definition CastError :: "string \<Rightarrow> js_error" where
  "CastError v =
     \<lparr>err_name = ''CastError'',
      err_message = ''Cast to ObjectId failed for value '' @ v,
      err_stack = ''CastError: Cast to ObjectId failed for value '' @ v\<rparr>"

datatype payload = NoPayload | PostPayload "post_doc option" | LikePayload int

text \<open>
  A reply is the status code and the JSON body: its \<open>message\<close>, the data it carries, and
  the \<open>error\<close> and \<open>details\<close> keys (absent when \<open>None\<close>).
\<close>

record reply =
  r_status :: nat
  r_message :: string
  r_payload :: payload
  r_error :: "string option"
  r_details :: "string option"

definition json :: "nat \<Rightarrow> string \<Rightarrow> payload \<Rightarrow> reply" where
  "json c m p = \<lparr>r_status = c, r_message = m, r_payload = p, r_error = None, r_details = None\<rparr>"

text \<open>
  The catch branch of each route. \<open>env\<close> is \<open>process.env.NODE_ENV\<close>. The branches of
  read, update, delete and like answer a \<open>CastError\<close> with 404; create and generate-ai
  add the stack under \<open>details\<close>; the branch written for ai-status puts the error
  message into the body without looking at \<open>env\<close> (which requests reach which branch is
  settled by the route table below).
\<close>

datatype route =
    ListPosts | RecentPosts | GetPost | CreatePost | UpdatePost | DeletePost | LikePost
  | Summarize | GenerateAi | GenerateContent | ImproveTitle | GenerateExcerpt | AiStatus

definition guarded_message :: "string option \<Rightarrow> js_error \<Rightarrow> string" where
  "guarded_message env e =
     (if env = Some ''development'' then err_message e else ''Internal server error'')"

definition failed :: "string \<Rightarrow> string option \<Rightarrow> js_error \<Rightarrow> reply" where
  "failed m env e = (json 500 m NoPayload)\<lparr>r_error := Some (guarded_message env e)\<rparr>"

definition failed_with_stack :: "string \<Rightarrow> string option \<Rightarrow> js_error \<Rightarrow> reply" where
  "failed_with_stack m env e =
     (failed m env e)\<lparr>r_details := (if env = Some ''development'' then Some (err_stack e) else None)\<rparr>"

definition not_found :: reply where
  "not_found = json 404 ''Post not found'' NoPayload"

fun on_error :: "route \<Rightarrow> string option \<Rightarrow> js_error \<Rightarrow> reply" where
  "on_error ListPosts env e = failed ''Failed to fetch posts'' env e"
| "on_error RecentPosts env e = failed ''Failed to fetch recent posts'' env e"
| "on_error GetPost env e =
     (if err_name e = ''CastError'' then not_found else failed ''Failed to fetch post'' env e)"
| "on_error CreatePost env e = failed_with_stack ''Failed to create post'' env e"
| "on_error UpdatePost env e =
     (if err_name e = ''CastError'' then not_found else failed ''Failed to update post'' env e)"
| "on_error DeletePost env e =
     (if err_name e = ''CastError'' then not_found else failed ''Failed to delete post'' env e)"
| "on_error LikePost env e =
     (if err_name e = ''CastError'' then not_found else failed ''Failed to like post'' env e)"
| "on_error Summarize env e = failed ''Failed to generate summary'' env e"
| "on_error GenerateAi env e = failed_with_stack ''Failed to generate blog post'' env e"
| "on_error GenerateContent env e = failed ''Failed to generate content'' env e"
| "on_error ImproveTitle env e = failed ''Failed to improve title'' env e"
| "on_error GenerateExcerpt env e = failed ''Failed to generate excerpt'' env e"
| "on_error AiStatus env e =
     (json 500 ''Failed to check AI service status'' NoPayload)\<lparr>r_error := Some (err_message e)\<rparr>"

subsection \<open>Route dispatch\<close>








subsection \<open>Store operations\<close>

definition post_by_id :: "db \<Rightarrow> objid \<Rightarrow> post_doc option" where
  "post_by_id d i = find (\<lambda>p. post_id p = i) (Post_coll d)"

text \<open>\<open>Post.findById(id)\<close>: raises \<open>CastError\<close> when \<open>id\<close> is not the text of an ObjectId.\<close>

definition Post_findById :: "db \<Rightarrow> string \<Rightarrow> js_error + post_doc option" where
  "Post_findById d i =
     (case cast_ObjectId i of
        None \<Rightarrow> Inl (CastError i)
      | Some oid \<Rightarrow> Inr (post_by_id d oid))"

definition Post_findOne_slug :: "db \<Rightarrow> string \<Rightarrow> post_doc option" where
  "Post_findOne_slug d s = find (\<lambda>p. slug p = s) (Post_coll d)"

text \<open>\<open>post.save()\<close> of a loaded document writes it back under its \<open>_id\<close>.\<close>

definition Post_save :: "db \<Rightarrow> post_doc \<Rightarrow> db" where
  "Post_save d p = d\<lparr>Post_coll := map (\<lambda>q. if post_id q = post_id p then p else q) (Post_coll d)\<rparr>"

text \<open>\<open>Post.findByIdAndUpdate(id, {$inc: {viewCount: 1}})\<close>.\<close>

definition Post_inc_viewCount :: "db \<Rightarrow> objid \<Rightarrow> db" where
  "Post_inc_viewCount d i =
     d\<lparr>Post_coll := map (\<lambda>q. if post_id q = i then q\<lparr>viewCount := viewCount q + 1\<rparr> else q) (Post_coll d)\<rparr>"

text \<open>\<open>Post.findByIdAndDelete(id)\<close>; an \<open>_id\<close> is unique in its collection.\<close>

definition remove_post :: "db \<Rightarrow> objid \<Rightarrow> db" where
  "remove_post d oid = d\<lparr>Post_coll := filter (\<lambda>q. post_id q \<noteq> oid) (Post_coll d)\<rparr>"

definition Post_findByIdAndDelete :: "db \<Rightarrow> string \<Rightarrow> js_error + db" where
  "Post_findByIdAndDelete d i =
     (case cast_ObjectId i of
        None \<Rightarrow> Inl (CastError i)
      | Some oid \<Rightarrow> Inr (remove_post d oid))"

definition tag_by_id :: "db \<Rightarrow> objid \<Rightarrow> tag_doc option" where
  "tag_by_id d i = find (\<lambda>t. tag_id t = i) (Tag_coll d)"

definition postCount_of :: "db \<Rightarrow> objid \<Rightarrow> int option" where
  "postCount_of d i = map_option postCount (tag_by_id d i)"

text \<open>\<open>Tag.findOne({name: n})\<close>: the first tag stored under exactly this name.\<close>

definition Tag_findOne_name :: "db \<Rightarrow> string \<Rightarrow> tag_doc option" where
  "Tag_findOne_name d n = find (\<lambda>t. name t = n) (Tag_coll d)"

text \<open>
  Modelled from the spec: the Tag model (\<open>models/Tag\<close>) is not in the sources.
  \<open>new Tag({name: n})\<close> followed by \<open>tag.save()\<close> stores a tag under a fresh id with
  \<open>postCount = 0\<close>. Here the name is stored and looked up as the handler, which
  lower-cases it, passes it; a setter of the schema on the name is taken into account
  in the parametrised operations further down.
\<close>

definition Tag_create :: "db \<Rightarrow> string \<Rightarrow> tag_doc \<times> db" where
  "Tag_create d n =
     (let t = \<lparr>tag_id = new_ObjectId d, name = n, postCount = 0\<rparr>
      in (t, d\<lparr>Tag_coll := Tag_coll d @ [t], oid_counter := Suc (oid_counter d)\<rparr>))"

text \<open>
  \<open>Tag.updateMany({_id: {$in: ids}}, {$inc: {postCount: k}})\<close>: every document whose
  id occurs in \<open>ids\<close> is changed once, however often the id occurs.
\<close>

definition Tag_updateMany_inc :: "db \<Rightarrow> objid list \<Rightarrow> int \<Rightarrow> db" where
  "Tag_updateMany_inc d ids k =
     d\<lparr>Tag_coll := map (\<lambda>t. if tag_id t \<in> set ids then t\<lparr>postCount := postCount t + k\<rparr> else t) (Tag_coll d)\<rparr>"

subsection \<open>Like\<close>

definition like_handler :: "string option \<Rightarrow> string \<Rightarrow> db \<Rightarrow> reply \<times> db" where
  "like_handler env i d =
     (case Post_findById d i of
        Inl e \<Rightarrow> (on_error LikePost env e, d)
      | Inr None \<Rightarrow> (not_found, d)
      | Inr (Some post) \<Rightarrow>
          if status post \<noteq> Some ''published'' then (not_found, d)
          else
            let post' = post\<lparr>likeCount := likeCount post + 1\<rparr>;
                d' = Post_save d post'
            in (json 200 ''Post liked successfully'' (LikePayload (likeCount post')), d'))"

subsection \<open>Request bodies and validation\<close>

text \<open>
  The \<open>tags\<close> field of a body is an array of strings (a JSON body, or a repeated form
  field) or one string (a single form field).
\<close>

datatype tags_field = TagsArray "string list" | TagsString string

text \<open>Fields that the request does not carry are \<open>undefined\<close>, here \<open>None\<close>.\<close>

record post_body =
  b_title :: "string option"
  b_content :: "string option"
  b_excerpt :: "string option"
  b_tags :: "tags_field option"
  b_status :: "string option"
  b_seoTitle :: "string option"
  b_seoDescription :: "string option"
  b_featured :: "bool option"

definition or_empty :: "string option \<Rightarrow> string" where
  "or_empty v = (case v of None \<Rightarrow> [] | Some s \<Rightarrow> s)"

text \<open>
  \<open>postValidation\<close>: the title, trimmed, has 3 to 200 characters; the content, trimmed,
  has at least 10; the status, when present, is \<open>draft\<close> or \<open>published\<close>. A missing
  title or content is validated as the empty string.
\<close>

definition postValidation :: "post_body \<Rightarrow> bool" where
  "postValidation b =
     (3 \<le> length (trim (or_empty (b_title b))) \<and> length (trim (or_empty (b_title b))) \<le> 200
      \<and> 10 \<le> length (trim (or_empty (b_content b)))
      \<and> (case b_status b of None \<Rightarrow> True | Some s \<Rightarrow> s = ''draft'' \<or> s = ''published''))"

definition validation_failed :: reply where
  "validation_failed = json 400 ''Validation failed'' NoPayload"

text \<open>
  \<open>Array.isArray(tags) ? tags : tags.split(',').map(tag => tag.trim())\<close>, with
  \<open>tags = []\<close> when the field is missing.
\<close>

definition tagNames_of :: "tags_field option \<Rightarrow> string list" where
  "tagNames_of v =
     (case v of
        None \<Rightarrow> []
      | Some (TagsArray xs) \<Rightarrow> xs
      | Some (TagsString s) \<Rightarrow> map trim (split_comma s))"

text \<open>
  The loop over \<open>tagNames\<close> of create and update: an empty name is skipped; otherwise the
  tag with the lower-cased name is looked up, created when absent, and its id is pushed
  onto \<open>tagIds\<close>.
\<close>

fun process_tags :: "string list \<Rightarrow> objid list \<Rightarrow> db \<Rightarrow> objid list \<times> db" where
  "process_tags [] tagIds d = (tagIds, d)"
| "process_tags (tagName # rest) tagIds d =
     (if tagName \<noteq> [] then
        (case Tag_findOne_name d (toLowerCase tagName) of
           Some t \<Rightarrow> process_tags rest (tagIds @ [tag_id t]) d
         | None \<Rightarrow>
             (case Tag_create d (toLowerCase tagName) of
                (t, d') \<Rightarrow> process_tags rest (tagIds @ [tag_id t]) d'))
      else process_tags rest tagIds d)"

subsection \<open>Create\<close>

definition upload_path :: "string \<Rightarrow> string" where
  "upload_path filename = ''/uploads/posts/'' @ filename"

text \<open>
  Modelled from the spec: the Post model (\<open>models/Post\<close>) is not in the sources; a post
  starts with \<open>viewCount = likeCount = 0\<close>, and its slug is derived from the title, by
  the parameter \<open>slugify\<close>. The other fields are those of \<open>new Post({...})\<close> in the
  handler, with the defaults of the destructured body (\<open>status = 'draft'\<close>,
  \<open>featured = false\<close>); the title and the content are the trimmed ones that the
  validation chain leaves in the body.
\<close>

definition new_Post ::
  "(string \<Rightarrow> string) \<Rightarrow> objid \<Rightarrow> string option \<Rightarrow> post_body \<Rightarrow> objid list \<Rightarrow> post_doc" where
  "new_Post slugify user file b tagIds =
     \<lparr>post_id = [],
      title = trim (or_empty (b_title b)),
      content = trim (or_empty (b_content b)),
      excerpt = b_excerpt b,
      coverImage = (case file of None \<Rightarrow> [] | Some f \<Rightarrow> upload_path f),
      author = user,
      tags = tagIds,
      status = Some (case b_status b of None \<Rightarrow> ''draft'' | Some s \<Rightarrow> s),
      seoTitle = b_seoTitle b,
      seoDescription = b_seoDescription b,
      featured = (case b_featured b of None \<Rightarrow> False | Some f \<Rightarrow> f),
      slug = slugify (trim (or_empty (b_title b))),
      viewCount = 0,
      likeCount = 0\<rparr>"

text \<open>\<open>post.save()\<close> of a new document: it is stored under a fresh \<open>_id\<close>.\<close>

definition Post_create :: "db \<Rightarrow> post_doc \<Rightarrow> post_doc \<times> db" where
  "Post_create d p =
     (let p' = p\<lparr>post_id := new_ObjectId d\<rparr>
      in (p', d\<lparr>Post_coll := Post_coll d @ [p'], oid_counter := Suc (oid_counter d)\<rparr>))"

definition create_handler ::
  "(string \<Rightarrow> string) \<Rightarrow> objid \<Rightarrow> string option \<Rightarrow> post_body \<Rightarrow> db \<Rightarrow> reply \<times> db" where
  "create_handler slugify user file b d =
     (if \<not> postValidation b then (validation_failed, d)
      else
        let (tagIds, d1) = process_tags (tagNames_of (b_tags b)) [] d;
            (post, d2) = Post_create d1 (new_Post slugify user file b tagIds);
            d3 = Tag_updateMany_inc d2 tagIds 1
        in (json 201 ''Post created successfully'' (PostPayload (post_by_id d3 (post_id post))), d3))"

subsection \<open>Update\<close>

text \<open>
  The two membership tests of the tag delta. \<open>tagIds\<close> is a plain array of ObjectId
  objects and is searched for a string, \<open>tagIds.includes(tagId.toString())\<close>:
  \<open>Array.prototype.includes\<close> compares with SameValueZero, under which a string equals
  only a string of the same text and never an object. \<open>post.tags\<close> is a Mongoose array,
  whose \<open>includes\<close> turns an ObjectId argument into its text and compares it with each
  element by \<open>==\<close>, which converts the element to its text as well.
\<close>

datatype jsval = JString string | JObjectId objid

text \<open>SameValueZero of a string and an array element.\<close>

fun SameValueZero_string :: "string \<Rightarrow> jsval \<Rightarrow> bool" where
  "SameValueZero_string s (JString t) = (s = t)"
| "SameValueZero_string s (JObjectId i) = False"

definition Array_includes :: "jsval list \<Rightarrow> string \<Rightarrow> bool" where
  "Array_includes xs s = list_ex (SameValueZero_string s) xs"

fun toString :: "jsval \<Rightarrow> string" where
  "toString (JString s) = s"
| "toString (JObjectId i) = i"

definition MongooseArray_includes :: "jsval list \<Rightarrow> jsval \<Rightarrow> bool" where
  "MongooseArray_includes xs v = list_ex (\<lambda>x. toString v = toString x) xs"

definition removedTagIds :: "objid list \<Rightarrow> objid list \<Rightarrow> objid list" where
  "removedTagIds oldTagIds tagIds =
     filter (\<lambda>tagId. \<not> Array_includes (map JObjectId tagIds) (toString (JObjectId tagId))) oldTagIds"

definition addedTagIds :: "objid list \<Rightarrow> objid list \<Rightarrow> objid list" where
  "addedTagIds oldTagIds tagIds =
     filter (\<lambda>tagId. \<not> MongooseArray_includes (map JObjectId oldTagIds) (JObjectId tagId)) tagIds"

definition forbidden :: "string \<Rightarrow> reply" where
  "forbidden m = json 403 m NoPayload"

text \<open>The cover image is assigned only when a file was uploaded.\<close>

definition set_coverImage :: "string option \<Rightarrow> post_doc \<Rightarrow> post_doc" where
  "set_coverImage file post =
     (case file of None \<Rightarrow> post | Some f \<Rightarrow> post\<lparr>coverImage := upload_path f\<rparr>)"

text \<open>
  \<open>Object.assign(post, {...})\<close> assigns every listed key, an omitted body field as
  \<open>undefined\<close>; only \<open>featured\<close> falls back to the stored value.
\<close>

definition Object_assign :: "post_doc \<Rightarrow> post_body \<Rightarrow> objid list \<Rightarrow> post_doc" where
  "Object_assign post b tagIds =
     post\<lparr>title := trim (or_empty (b_title b)),
          content := trim (or_empty (b_content b)),
          excerpt := b_excerpt b,
          tags := tagIds,
          status := b_status b,
          seoTitle := b_seoTitle b,
          seoDescription := b_seoDescription b,
          featured := (case b_featured b of None \<Rightarrow> featured post | Some f \<Rightarrow> f)\<rparr>"

definition update_handler ::
  "string option \<Rightarrow> objid \<Rightarrow> string option \<Rightarrow> string \<Rightarrow> post_body \<Rightarrow> db \<Rightarrow> reply \<times> db" where
  "update_handler env user file i b d =
     (if \<not> postValidation b then (validation_failed, d)
      else
        case Post_findById d i of
          Inl e \<Rightarrow> (on_error UpdatePost env e, d)
        | Inr None \<Rightarrow> (not_found, d)
        | Inr (Some post) \<Rightarrow>
            if toString (JObjectId (author post)) \<noteq> toString (JObjectId user)
            then (forbidden ''You can only edit your own posts'', d)
            else
              let post1 = set_coverImage file post;
                  (tagIds, d1) = process_tags (tagNames_of (b_tags b)) [] d;
                  oldTagIds = tags post1;
                  d2 = Tag_updateMany_inc d1 (removedTagIds oldTagIds tagIds) (- 1);
                  d3 = Tag_updateMany_inc d2 (addedTagIds oldTagIds tagIds) 1;
                  post2 = Object_assign post1 b tagIds;
                  d4 = Post_save d3 post2
              in (json 200 ''Post updated successfully'' (PostPayload (post_by_id d4 (post_id post2))), d4))"

subsection \<open>Delete\<close>

text \<open>
  The handler awaits two writes, \<open>Tag.updateMany\<close> and then \<open>Post.findByIdAndDelete\<close>.
  \<open>delete_trace\<close> returns the reply together with the stores that the completed writes
  leave, in the order of the writes; a refusal writes nothing. \<open>delete_handler\<close> is the
  reply and the store after the last write.
\<close>

definition delete_trace :: "string option \<Rightarrow> objid \<Rightarrow> string \<Rightarrow> db \<Rightarrow> reply \<times> db list" where
  "delete_trace env user i d =
     (case Post_findById d i of
        Inl e \<Rightarrow> (on_error DeletePost env e, [])
      | Inr None \<Rightarrow> (not_found, [])
      | Inr (Some post) \<Rightarrow>
          if toString (JObjectId (author post)) \<noteq> toString (JObjectId user)
          then (forbidden ''You can only delete your own posts'', [])
          else
            let d1 = Tag_updateMany_inc d (tags post) (- 1)
            in (case Post_findByIdAndDelete d1 i of
                  Inl e \<Rightarrow> (on_error DeletePost env e, [d1])
                | Inr d2 \<Rightarrow> (json 200 ''Post deleted successfully'' NoPayload, [d1, d2])))"

definition delete_handler :: "string option \<Rightarrow> objid \<Rightarrow> string \<Rightarrow> db \<Rightarrow> reply \<times> db" where
  "delete_handler env user i d =
     (case delete_trace env user i d of (r, written) \<Rightarrow> (r, last (d # written)))"

subsection \<open>Read\<close>

text \<open>
  The post is looked up by id; a \<open>CastError\<close> of that lookup, or no result, is followed
  by a lookup by slug. \<open>role\<close> is the role of the caller, \<open>None\<close> for an anonymous one.
\<close>

definition get_lookup :: "db \<Rightarrow> string \<Rightarrow> js_error + post_doc option" where
  "get_lookup d i =
     (case (case Post_findById d i of
              Inl e \<Rightarrow> if err_name e = ''CastError'' then Inr (Post_findOne_slug d i) else Inl e
            | Inr r \<Rightarrow> Inr r) of
        Inl e \<Rightarrow> Inl e
      | Inr None \<Rightarrow> Inr (Post_findOne_slug d i)
      | Inr (Some post) \<Rightarrow> Inr (Some post))"

definition get_handler :: "string option \<Rightarrow> string option \<Rightarrow> string \<Rightarrow> db \<Rightarrow> reply \<times> db" where
  "get_handler env role i d =
     (case get_lookup d i of
        Inl e \<Rightarrow> (on_error GetPost env e, d)
      | Inr None \<Rightarrow> (not_found, d)
      | Inr (Some post) \<Rightarrow>
          if status post \<noteq> Some ''published''
             \<and> (case role of None \<Rightarrow> True | Some r \<Rightarrow> r \<noteq> ''admin'' \<and> r \<noteq> ''super_admin'')
          then (not_found, d)
          else if status post = Some ''published''
          then (json 200 [] (PostPayload (Some (post\<lparr>viewCount := viewCount post + 1\<rparr>))),
                Post_inc_viewCount d (post_id post))
          else (json 200 [] (PostPayload (Some post)), d))"

subsection \<open>Create under a Tag schema with a setter on the name\<close>


text \<open>
  The Tag operations, the tag loop and the create handler with the setter of the schema
  as a parameter. With the identity as setter they are the ones above.
\<close>

definition Tag_findOne_name_with :: "(string \<Rightarrow> string) \<Rightarrow> db \<Rightarrow> string \<Rightarrow> tag_doc option" where
  "Tag_findOne_name_with setter d n = find (\<lambda>t. name t = setter n) (Tag_coll d)"

definition Tag_create_with :: "(string \<Rightarrow> string) \<Rightarrow> db \<Rightarrow> string \<Rightarrow> tag_doc \<times> db" where
  "Tag_create_with setter d n =
     (let t = \<lparr>tag_id = new_ObjectId d, name = setter n, postCount = 0\<rparr>
      in (t, d\<lparr>Tag_coll := Tag_coll d @ [t], oid_counter := Suc (oid_counter d)\<rparr>))"

fun process_tags_with ::
  "(string \<Rightarrow> string) \<Rightarrow> string list \<Rightarrow> objid list \<Rightarrow> db \<Rightarrow> objid list \<times> db" where
  "process_tags_with setter [] tagIds d = (tagIds, d)"
| "process_tags_with setter (tagName # rest) tagIds d =
     (if tagName \<noteq> [] then
        (case Tag_findOne_name_with setter d (toLowerCase tagName) of
           Some t \<Rightarrow> process_tags_with setter rest (tagIds @ [tag_id t]) d
         | None \<Rightarrow>
             (case Tag_create_with setter d (toLowerCase tagName) of
                (t, d') \<Rightarrow> process_tags_with setter rest (tagIds @ [tag_id t]) d'))
      else process_tags_with setter rest tagIds d)"

definition create_handler_with ::
  "(string \<Rightarrow> string) \<Rightarrow> (string \<Rightarrow> string) \<Rightarrow> objid \<Rightarrow> string option \<Rightarrow> post_body \<Rightarrow> db
     \<Rightarrow> reply \<times> db" where
  "create_handler_with setter slugify user file b d =
     (if \<not> postValidation b then (validation_failed, d)
      else
        let (tagIds, d1) = process_tags_with setter (tagNames_of (b_tags b)) [] d;
            (post, d2) = Post_create d1 (new_Post slugify user file b tagIds);
            d3 = Tag_updateMany_inc d2 tagIds 1
        in (json 201 ''Post created successfully'' (PostPayload (post_by_id d3 (post_id post))), d3))"

subsection \<open>Example data\<close>

text \<open>
  A small store for the concrete runs below: two authors, the tags \<open>go\<close> and \<open>rust\<close>,
  a published post of the first author tagged with both, and a draft of the second one
  tagged \<open>rust\<close>.
\<close>

definition alice :: objid where
  "alice = ''a00000000000000000000001''"

definition bob :: objid where
  "bob = ''b00000000000000000000002''"

definition go_id :: objid where
  "go_id = ''c00000000000000000000001''"

definition rust_id :: objid where
  "rust_id = ''c00000000000000000000002''"

definition hello_id :: objid where
  "hello_id = ''d00000000000000000000001''"

definition draft_id :: objid where
  "draft_id = ''d00000000000000000000002''"

definition missing_id :: objid where
  "missing_id = ''d00000000000000000000009''"

definition hello_post :: post_doc where
  "hello_post =
     \<lparr>post_id = hello_id, title = ''Hello world'', content = ''Some long content'',
      excerpt = Some ''An excerpt'', coverImage = ''/uploads/posts/old.png'', author = alice,
      tags = [go_id, rust_id], status = Some ''published'', seoTitle = Some ''Hello'',
      seoDescription = Some ''A first post'', featured = True, slug = ''hello-world'',
      viewCount = 7, likeCount = 3\<rparr>"

definition draft_post :: post_doc where
  "draft_post =
     \<lparr>post_id = draft_id, title = ''Notes'', content = ''Nothing to see yet'',
      excerpt = None, coverImage = [], author = bob,
      tags = [rust_id], status = Some ''draft'', seoTitle = None,
      seoDescription = None, featured = False, slug = ''notes'',
      viewCount = 0, likeCount = 0\<rparr>"

definition blog :: db where
  "blog =
     \<lparr>Post_coll = [hello_post, draft_post],
      Tag_coll = [\<lparr>tag_id = go_id, name = ''go'', postCount = 1\<rparr>,
                  \<lparr>tag_id = rust_id, name = ''rust'', postCount = 2\<rparr>],
      oid_counter = 0\<rparr>"


definition empty_blog :: db where
  "empty_blog = \<lparr>Post_coll = [], Tag_coll = [], oid_counter = 0\<rparr>"

text \<open>A body that carries a title, a content and the given tags, and nothing else.\<close>

definition plain_body :: "tags_field option \<Rightarrow> post_body" where
  "plain_body tg =
     \<lparr>b_title = Some ''Hello world'', b_content = Some ''Some long content'',
      b_excerpt = None, b_tags = tg, b_status = None, b_seoTitle = None,
      b_seoDescription = None, b_featured = None\<rparr>"

definition short_body :: post_body where
  "short_body =
     \<lparr>b_title = Some ''Hi'', b_content = Some ''Some long content'',
      b_excerpt = None, b_tags = None, b_status = None, b_seoTitle = None,
      b_seoDescription = None, b_featured = None\<rparr>"



text \<open>The names and counts of the tag collection, in order.\<close>

definition tag_counts :: "db \<Rightarrow> (string \<times> int) list" where
  "tag_counts d = map (\<lambda>t. (name t, postCount t)) (Tag_coll d)"

section \<open>Properties\<close>

subsection \<open>Lookups in a collection\<close>

lemma find_map_same_key:
  assumes "\<And>x. key (f x) = key x"
  shows "find (\<lambda>x. key x = i) (map f xs) = map_option f (find (\<lambda>x. key x = i) xs)"
  by (induction xs) (simp_all add: assms)

lemma find_key_Some: "find (\<lambda>x. key x = i) xs = Some x \<Longrightarrow> key x = i \<and> x \<in> set xs"
  by (induction xs) (auto split: if_splits)

lemma find_key_None: "find (\<lambda>x. key x = i) xs = None \<longleftrightarrow> i \<notin> key ` set xs"
  by (induction xs) auto

subsection \<open>Effects of the store operations\<close>

lemma postCount_of_updateMany:
  "postCount_of (Tag_updateMany_inc d ids k) i =
     (if i \<in> set ids then map_option (\<lambda>c. c + k) (postCount_of d i) else postCount_of d i)"
proof -
  let ?f = "\<lambda>t. if tag_id t \<in> set ids then t\<lparr>postCount := postCount t + k\<rparr> else t"
  have key: "\<And>t. tag_id (?f t) = tag_id t" by simp
  have "tag_by_id (Tag_updateMany_inc d ids k) i = map_option ?f (tag_by_id d i)"
    unfolding tag_by_id_def Tag_updateMany_inc_def
    using find_map_same_key [of tag_id ?f i "Tag_coll d", OF key] by simp
  then show ?thesis
    unfolding postCount_of_def
    by (cases "tag_by_id d i") (auto simp: tag_by_id_def dest: find_key_Some)
qed

lemma Post_coll_updateMany [simp]: "Post_coll (Tag_updateMany_inc d ids k) = Post_coll d"
  by (simp add: Tag_updateMany_inc_def)

lemma Tag_coll_Post_save [simp]: "Tag_coll (Post_save d p) = Tag_coll d"
  by (simp add: Post_save_def)

lemma post_by_id_updateMany [simp]: "post_by_id (Tag_updateMany_inc d ids k) j = post_by_id d j"
  by (simp add: post_by_id_def)

lemma post_by_id_Post_save:
  "post_by_id (Post_save d p) j =
     (if j = post_id p then map_option (\<lambda>q. p) (post_by_id d j) else post_by_id d j)"
proof -
  let ?f = "\<lambda>q. if post_id q = post_id p then p else q"
  have key: "\<And>q. post_id (?f q) = post_id q" by simp
  have eq: "post_by_id (Post_save d p) j = map_option ?f (post_by_id d j)"
    unfolding post_by_id_def Post_save_def
    using find_map_same_key [of post_id ?f j "Post_coll d", OF key] by simp
  show ?thesis
    unfolding eq by (cases "post_by_id d j") (auto simp: post_by_id_def dest: find_key_Some)
qed

lemma post_by_id_inc_viewCount:
  "post_by_id (Post_inc_viewCount d i) j =
     (if j = i then map_option (\<lambda>q. q\<lparr>viewCount := viewCount q + 1\<rparr>) (post_by_id d j)
      else post_by_id d j)"
proof -
  let ?f = "\<lambda>q. if post_id q = i then q\<lparr>viewCount := viewCount q + 1\<rparr> else q"
  have key: "\<And>q. post_id (?f q) = post_id q" by simp
  have eq: "post_by_id (Post_inc_viewCount d i) j = map_option ?f (post_by_id d j)"
    unfolding post_by_id_def Post_inc_viewCount_def
    using find_map_same_key [of post_id ?f j "Post_coll d", OF key] by simp
  show ?thesis
    unfolding eq by (cases "post_by_id d j") (auto simp: post_by_id_def dest: find_key_Some)
qed

lemma post_by_id_delete:
  "post_by_id (remove_post d i) j = (if j = i then None else post_by_id d j)"
proof -
  have aux: "find (\<lambda>p. post_id p = j) (filter (\<lambda>q. post_id q \<noteq> i) xs) =
          (if j = i then None else find (\<lambda>p. post_id p = j) xs)" for xs
    by (induction xs) auto
  show ?thesis by (simp add: post_by_id_def remove_post_def aux)
qed

lemma Post_findById_Some:
  "Post_findById d i = Inr (Some post) \<Longrightarrow>
     post_by_id d (post_id post) = Some post \<and> cast_ObjectId i = Some (post_id post)"
  by (auto simp: Post_findById_def post_by_id_def split: option.splits dest: find_key_Some)

subsection \<open>The tag delta of update\<close>

text \<open>
  No ObjectId in \<open>tagIds\<close> is the same value as a string, so every old tag counts as
  removed; the added tags are the new ones that the post did not carry.
\<close>

lemma Array_includes_ObjectIds: "\<not> Array_includes (map JObjectId xs) s"
  by (induction xs) (simp_all add: Array_includes_def)

lemma removedTagIds_all: "removedTagIds oldTagIds tagIds = oldTagIds"
  by (simp add: removedTagIds_def Array_includes_ObjectIds)

lemma MongooseArray_includes_ObjectIds:
  "MongooseArray_includes (map JObjectId xs) (JObjectId i) \<longleftrightarrow> i \<in> set xs"
  by (induction xs) (auto simp: MongooseArray_includes_def)

lemma addedTagIds_new: "addedTagIds oldTagIds tagIds = filter (\<lambda>i. i \<notin> set oldTagIds) tagIds"
  by (simp add: addedTagIds_def MongooseArray_includes_ObjectIds)

subsection \<open>The tag loop\<close>

text \<open>
  The loop leaves the posts alone and only appends tags, each with count 0 and with its
  id among the ids returned; every id returned is the id of a stored tag.
\<close>

lemma process_tags_store:
  "process_tags names acc d = (ids, d1) \<Longrightarrow>
     Post_coll d1 = Post_coll d \<and> set acc \<subseteq> set ids
     \<and> (\<exists>new. Tag_coll d1 = Tag_coll d @ new
            \<and> list_all (\<lambda>t. postCount t = 0 \<and> tag_id t \<in> set ids) new)"
proof (induction names arbitrary: acc d)
  case Nil
  then show ?case by simp
next
  case (Cons tagName rest)
  show ?case
  proof (cases "tagName = []")
    case True
    with Cons show ?thesis by simp
  next
    case False
    show ?thesis
    proof (cases "Tag_findOne_name d (toLowerCase tagName)")
      case (Some t)
      with False Cons.prems have "process_tags rest (acc @ [tag_id t]) d = (ids, d1)" by simp
      from Cons.IH [OF this] show ?thesis by auto
    next
      case None
      define t where "t = fst (Tag_create d (toLowerCase tagName))"
      define d' where "d' = snd (Tag_create d (toLowerCase tagName))"
      have tc: "Tag_create d (toLowerCase tagName) = (t, d')" by (simp add: t_def d'_def)
      with None False Cons.prems have run: "process_tags rest (acc @ [tag_id t]) d' = (ids, d1)"
        by simp
      have d': "Tag_coll d' = Tag_coll d @ [t]" "Post_coll d' = Post_coll d" "postCount t = 0"
        by (simp_all add: t_def d'_def Tag_create_def Let_def)
      from Cons.IH [OF run] obtain new where
        new: "Post_coll d1 = Post_coll d'" "set (acc @ [tag_id t]) \<subseteq> set ids"
          "Tag_coll d1 = Tag_coll d' @ new"
          "list_all (\<lambda>t. postCount t = 0 \<and> tag_id t \<in> set ids) new"
        by blast
      have "Tag_coll d1 = Tag_coll d @ (t # new)" using new d' by simp
      moreover have "list_all (\<lambda>t. postCount t = 0 \<and> tag_id t \<in> set ids) (t # new)"
        using new d' by simp
      ultimately show ?thesis using new d' by auto
    qed
  qed
qed

lemma process_tags_ids:
  "process_tags names acc d = (ids, d1) \<Longrightarrow> i \<in> set ids \<Longrightarrow>
     i \<in> set acc \<or> i \<in> tag_id ` set (Tag_coll d1)"
proof (induction names arbitrary: acc d)
  case Nil
  then show ?case by simp
next
  case (Cons tagName rest)
  show ?case
  proof (cases "tagName = []")
    case True
    with Cons show ?thesis by simp
  next
    case False
    show ?thesis
    proof (cases "Tag_findOne_name d (toLowerCase tagName)")
      case (Some t)
      with False Cons.prems have run: "process_tags rest (acc @ [tag_id t]) d = (ids, d1)" by simp
      from Some have "t \<in> set (Tag_coll d)"
        by (auto simp: Tag_findOne_name_def dest: find_key_Some)
      moreover from process_tags_store [OF run] have "set (Tag_coll d) \<subseteq> set (Tag_coll d1)" by auto
      ultimately have "tag_id t \<in> tag_id ` set (Tag_coll d1)" by auto
      with Cons.IH [OF run Cons.prems(2)] show ?thesis by auto
    next
      case None
      define t where "t = fst (Tag_create d (toLowerCase tagName))"
      define d' where "d' = snd (Tag_create d (toLowerCase tagName))"
      have tc: "Tag_create d (toLowerCase tagName) = (t, d')" by (simp add: t_def d'_def)
      with None False Cons.prems have run: "process_tags rest (acc @ [tag_id t]) d' = (ids, d1)"
        by simp
      have "t \<in> set (Tag_coll d')" by (simp add: t_def d'_def Tag_create_def Let_def)
      moreover from process_tags_store [OF run] have "set (Tag_coll d') \<subseteq> set (Tag_coll d1)" by auto
      ultimately have "tag_id t \<in> tag_id ` set (Tag_coll d1)" by auto
      with Cons.IH [OF run Cons.prems(2)] show ?thesis by auto
    qed
  qed
qed

lemma find_append_key:
  "find P (xs @ ys) = (case find P xs of None \<Rightarrow> find P ys | Some x \<Rightarrow> Some x)"
  by (induction xs) simp_all

lemma process_tags_counts:
  assumes "process_tags names [] d = (ids, d1)"
  shows "postCount_of d1 t =
           (case postCount_of d t of
              Some c \<Rightarrow> Some c
            | None \<Rightarrow> if t \<in> set ids then Some 0 else None)"
proof -
  from process_tags_store [OF assms] obtain new where
    new: "Tag_coll d1 = Tag_coll d @ new"
      "list_all (\<lambda>x. postCount x = 0 \<and> tag_id x \<in> set ids) new"
    by blast
  show ?thesis
  proof (cases "tag_by_id d t")
    case (Some x)
    then show ?thesis by (simp add: postCount_of_def tag_by_id_def new(1) find_append_key)
  next
    case None
    then have old: "t \<notin> tag_id ` set (Tag_coll d)"
      by (simp add: tag_by_id_def find_key_None)
    have d1: "tag_by_id d1 t = find (\<lambda>x. tag_id x = t) new"
      using None by (simp add: tag_by_id_def new(1) find_append_key)
    show ?thesis
    proof (cases "t \<in> set ids")
      case True
      from process_tags_ids [OF assms True] old new(1) have "t \<in> tag_id ` set new" by auto
      then obtain x where x: "find (\<lambda>x. tag_id x = t) new = Some x"
        using find_key_None [of tag_id t new] by (cases "find (\<lambda>x. tag_id x = t) new") auto
      from find_key_Some [OF x] new(2) have "postCount x = 0" by (auto simp: list_all_iff)
      with x d1 None True show ?thesis by (simp add: postCount_of_def)
    next
      case False
      with new(2) have "t \<notin> tag_id ` set new" by (auto simp: list_all_iff)
      then have "find (\<lambda>x. tag_id x = t) new = None" by (simp add: find_key_None)
      with d1 None False show ?thesis by (simp add: postCount_of_def)
    qed
  qed
qed

subsection \<open>The handlers on an accepted request\<close>

lemma create_handler_valid:
  assumes "postValidation b" and "process_tags (tagNames_of (b_tags b)) [] d = (tagIds, d1)"
  shows "snd (create_handler slugify user upload b d) =
           Tag_updateMany_inc (snd (Post_create d1 (new_Post slugify user upload b tagIds))) tagIds 1"
  using assms by (simp add: create_handler_def Let_def split: prod.splits)

lemma update_handler_ok:
  assumes "postValidation b" and "Post_findById d i = Inr (Some post)" and "author post = user"
    and "process_tags (tagNames_of (b_tags b)) [] d = (tagIds, d1)"
  shows "update_handler env user upload i b d =
           (json 200 ''Post updated successfully''
              (PostPayload (Some (Object_assign (set_coverImage upload post) b tagIds))),
            Post_save
              (Tag_updateMany_inc (Tag_updateMany_inc d1 (tags post) (- 1))
                 (filter (\<lambda>j. j \<notin> set (tags post)) tagIds) 1)
              (Object_assign (set_coverImage upload post) b tagIds))"
proof -
  have tg: "tags (set_coverImage upload post) = tags post"
    and pid: "post_id (Object_assign (set_coverImage upload post) b tagIds) = post_id post"
    by (simp_all add: set_coverImage_def Object_assign_def split: option.splits)
  from process_tags_store [OF assms(4)] have "Post_coll d1 = Post_coll d" by simp
  then have "post_by_id d1 (post_id post) = Some post"
    using Post_findById_Some [OF assms(2)] by (simp add: post_by_id_def)
  then have found: "post_by_id (Post_save
              (Tag_updateMany_inc (Tag_updateMany_inc d1 (tags post) (- 1))
                 (filter (\<lambda>j. j \<notin> set (tags post)) tagIds) 1)
              (Object_assign (set_coverImage upload post) b tagIds)) (post_id post)
      = Some (Object_assign (set_coverImage upload post) b tagIds)"
    by (simp add: post_by_id_Post_save pid)
  show ?thesis
    using assms found
    by (simp add: update_handler_def Let_def tg pid removedTagIds_all addedTagIds_new)
qed

lemma update_handler_stored:
  assumes "postValidation b" and "Post_findById d i = Inr (Some post)" and "author post = user"
    and "process_tags (tagNames_of (b_tags b)) [] d = (tagIds, d1)"
  shows "post_by_id (snd (update_handler env user upload i b d)) (post_id post) =
           Some (Object_assign (set_coverImage upload post) b tagIds)"
proof -
  have pid: "post_id (Object_assign (set_coverImage upload post) b tagIds) = post_id post"
    by (simp add: set_coverImage_def Object_assign_def split: option.splits)
  from process_tags_store [OF assms(4)] have "Post_coll d1 = Post_coll d" by simp
  then have "post_by_id d1 (post_id post) = Some post"
    using Post_findById_Some [OF assms(2)] by (simp add: post_by_id_def)
  then show ?thesis
    by (simp add: update_handler_ok [OF assms] post_by_id_Post_save pid)
qed

lemma postCount_of_Post_save [simp]: "postCount_of (Post_save d p) t = postCount_of d t"
  by (simp add: postCount_of_def tag_by_id_def)

lemma update_tag_counts:
  assumes "postValidation b" and "Post_findById d i = Inr (Some post)" and "author post = user"
    and "process_tags (tagNames_of (b_tags b)) [] d = (tagIds, d1)"
  shows "postCount_of (snd (update_handler env user upload i b d)) t =
           (if t \<in> set (tags post) then map_option (\<lambda>c. c - 1) (postCount_of d1 t)
            else if t \<in> set tagIds then map_option (\<lambda>c. c + 1) (postCount_of d1 t)
            else postCount_of d1 t)"
  by (simp add: update_handler_ok [OF assms] postCount_of_updateMany)

lemma tags_new_Post: "tags (new_Post slugify user upload b tagIds) = tagIds"
  by (simp add: new_Post_def)

lemma create_handler_Tag_coll:
  assumes "postValidation b" and "process_tags (tagNames_of (b_tags b)) [] d = (tagIds, d1)"
  shows "tag_counts (snd (create_handler slugify user upload b d)) =
           tag_counts (Tag_updateMany_inc d1 tagIds 1)"
  by (simp add: create_handler_valid [OF assms] tag_counts_def Tag_updateMany_inc_def
        Post_create_def Let_def)

lemma update_handler_Tag_coll:
  assumes "postValidation b" and "Post_findById d i = Inr (Some post)" and "author post = user"
    and "process_tags (tagNames_of (b_tags b)) [] d = (tagIds, d1)"
  shows "tag_counts (snd (update_handler env user upload i b d)) =
           tag_counts (Tag_updateMany_inc (Tag_updateMany_inc d1 (tags post) (- 1))
                         (filter (\<lambda>j. j \<notin> set (tags post)) tagIds) 1)"
  by (simp add: update_handler_ok [OF assms] tag_counts_def)

lemma create_handler_post_tags:
  assumes "postValidation b" and "process_tags (tagNames_of (b_tags b)) [] d = (tagIds, d1)"
  shows "map tags (Post_coll (snd (create_handler slugify user upload b d))) =
           map tags (Post_coll d1) @ [tagIds]"
  by (simp add: create_handler_valid [OF assms] Post_create_def Let_def tags_new_Post)

lemma plain_body_valid: "postValidation (plain_body tg)"
  by (simp add: postValidation_def plain_body_def or_empty_def) code_simp

lemma hello_post_found: "Post_findById blog hello_id = Inr (Some hello_post)"
  by code_simp

lemma missing_post_absent: "Post_findById blog missing_id = Inr None"
  by code_simp

lemma hello_post_author: "author hello_post = alice"
  by (simp add: hello_post_def)

lemma hello_post_id: "post_id hello_post = hello_id"
  by (simp add: hello_post_def)

lemma like_handler_ok:
  assumes "Post_findById d i = Inr (Some post)" and "status post = Some ''published''"
  shows "like_handler env i d =
           (json 200 ''Post liked successfully'' (LikePayload (likeCount post + 1)),
            Post_save d (post\<lparr>likeCount := likeCount post + 1\<rparr>))"
    and "post_by_id (snd (like_handler env i d)) (post_id post) =
           Some (post\<lparr>likeCount := likeCount post + 1\<rparr>)"
    and "Post_findById (snd (like_handler env i d)) i = Inr (Some (post\<lparr>likeCount := likeCount post + 1\<rparr>))"
proof -
  show run: "like_handler env i d =
           (json 200 ''Post liked successfully'' (LikePayload (likeCount post + 1)),
            Post_save d (post\<lparr>likeCount := likeCount post + 1\<rparr>))"
    using assms by (simp add: like_handler_def Let_def)
  show found: "post_by_id (snd (like_handler env i d)) (post_id post) =
           Some (post\<lparr>likeCount := likeCount post + 1\<rparr>)"
    using Post_findById_Some [OF assms(1)] by (simp add: run post_by_id_Post_save)
  from Post_findById_Some [OF assms(1)] have "cast_ObjectId i = Some (post_id post)" by simp
  with found show "Post_findById (snd (like_handler env i d)) i = Inr (Some (post\<lparr>likeCount := likeCount post + 1\<rparr>))"
    by (simp add: Post_findById_def)
qed

lemma like_handler_repeat:
  assumes "Post_findById d i = Inr (Some post)" and "status post = Some ''published''"
  shows "Post_findById (((\<lambda>s. snd (like_handler env i s)) ^^ n) d) i =
           Inr (Some (post\<lparr>likeCount := likeCount post + int n\<rparr>))"
proof (induction n)
  case 0
  show ?case using assms by simp
next
  case (Suc n)
  have st: "status (post\<lparr>likeCount := likeCount post + int n\<rparr>) = Some ''published''"
    using assms by simp
  show ?case
    using like_handler_ok(3) [OF Suc st, where env = env] by (simp add: add.assoc)
qed

lemma Tag_coll_inc_viewCount [simp]: "Tag_coll (Post_inc_viewCount d i) = Tag_coll d"
  by (simp add: Post_inc_viewCount_def)

lemma postCount_of_delete [simp]:
  "postCount_of (remove_post d i) t = postCount_of d t"
  by (simp add: postCount_of_def tag_by_id_def remove_post_def)

lemma draft_post_found: "Post_findById blog draft_id = Inr (Some draft_post)"
  by code_simp

lemma blog_counts: "postCount_of blog go_id = Some 1" "postCount_of blog rust_id = Some 2"
  by code_simp+

section \<open>The claims\<close>

subsection \<open>Create: folding of tag names\<close>

text \<open>
  A comma-separated \<open>tags\<close> string is split and each piece trimmed by the handler, so
  \<open>"Go,go, GO "\<close> resolves to the one tag \<open>go\<close> whatever the schema does.
\<close>

lemma create_string_tags_trimmed:
  "tag_counts (snd (create_handler slugify alice None
      (plain_body (Some (TagsString ''Go,go, GO ''))) empty_blog)) = [(''go'', 1)]"
proof -
  have pt: "process_tags (tagNames_of (b_tags (plain_body (Some (TagsString ''Go,go, GO ''))))) []
      empty_blog =
    (replicate 3 ''000000000000000000000000'',
     \<lparr>Post_coll = [],
      Tag_coll = [\<lparr>tag_id = ''000000000000000000000000'', name = ''go'', postCount = 0\<rparr>],
      oid_counter = 1\<rparr>)"
    by code_simp
  show ?thesis
    unfolding create_handler_Tag_coll [OF plain_body_valid pt] by code_simp
qed

text \<open>
  Claim C1: a create request with the tag list \<open>["Go", "go", " GO "]\<close> creates exactly one
  tag \<open>go\<close> with \<open>postCount = 1\<close>. The handler lower-cases the elements of an array but
  does not trim them: on the empty store the request creates the two tags \<open>go\<close> and
  \<open> go \<close> (with the blanks), each with count 1, and the stored post refers to both.
\<close>

text \<open>
  The elements of a \<open>tags\<close> array are lower-cased by the handler and handed to the Tag
  model with their blanks. If the model kept every name as passed, the array
  \<open>["Go", "go", " GO "]\<close> would create the two tags \<open>go\<close> and \<open> go \<close>.
\<close>

lemma create_array_names_kept_as_passed:
  "tag_counts (snd (create_handler slugify alice None
      (plain_body (Some (TagsArray [''Go'', ''go'', '' GO '']))) empty_blog))
     = [(''go'', 1), ('' go '', 1)]
   \<and> map tags (Post_coll (snd (create_handler slugify alice None
      (plain_body (Some (TagsArray [''Go'', ''go'', '' GO '']))) empty_blog)))
     = [[''000000000000000000000000'', ''000000000000000000000000'', ''000000000000000000000001'']]"
proof -
  have pt: "process_tags (tagNames_of (b_tags (plain_body (Some (TagsArray [''Go'', ''go'', '' GO '']))))) []
      empty_blog =
    ([''000000000000000000000000'', ''000000000000000000000000'', ''000000000000000000000001''],
     \<lparr>Post_coll = [],
      Tag_coll = [\<lparr>tag_id = ''000000000000000000000000'', name = ''go'', postCount = 0\<rparr>,
                  \<lparr>tag_id = ''000000000000000000000001'', name = '' go '', postCount = 0\<rparr>],
      oid_counter = 2\<rparr>)"
    by code_simp
  have counts: "tag_counts (snd (create_handler slugify alice None
      (plain_body (Some (TagsArray [''Go'', ''go'', '' GO '']))) empty_blog))
     = [(''go'', 1), ('' go '', 1)]"
    unfolding create_handler_Tag_coll [OF plain_body_valid pt] by code_simp
  have refs: "map tags (Post_coll (snd (create_handler slugify alice None
      (plain_body (Some (TagsArray [''Go'', ''go'', '' GO '']))) empty_blog)))
     = [[''000000000000000000000000'', ''000000000000000000000000'', ''000000000000000000000001'']]"
    unfolding create_handler_post_tags [OF plain_body_valid pt] by simp
  from counts refs show ?thesis by simp
qed

text \<open>With the identity as setter the parametrised handler is the handler above.\<close>

lemma Tag_findOne_name_with_identity:
  "Tag_findOne_name_with (\<lambda>n. n) d n = Tag_findOne_name d n"
  by (simp add: Tag_findOne_name_with_def Tag_findOne_name_def)

lemma Tag_create_with_identity: "Tag_create_with (\<lambda>n. n) d n = Tag_create d n"
  by (simp add: Tag_create_with_def Tag_create_def)

lemma process_tags_with_identity:
  "process_tags_with (\<lambda>n. n) names acc d = process_tags names acc d"
  by (induction names arbitrary: acc d)
    (simp_all add: Tag_findOne_name_with_identity Tag_create_with_identity
       split: option.splits prod.splits)

lemma create_handler_with_identity:
  "create_handler_with (\<lambda>n. n) slugify user upload b d = create_handler slugify user upload b d"
  by (simp add: create_handler_with_def create_handler_def process_tags_with_identity)




subsection \<open>Update: the tag delta\<close>

text \<open>
  Claim C2: an update from the tags \<open>{go, rust}\<close> to \<open>{rust, python}\<close> lowers the count of
  \<open>go\<close> by one, raises that of \<open>python\<close> by one and leaves \<open>rust\<close> as it was. In the
  handler every old tag is decremented, the kept ones too: \<open>go\<close> goes from 1 to 0,
  \<open>python\<close> is created and counted once, and \<open>rust\<close> goes from 2 to 1.
\<close>

theorem update_go_rust_to_rust_python:
  "tag_counts blog = [(''go'', 1), (''rust'', 2)]
   \<and> map_option tags (post_by_id blog hello_id) = Some [go_id, rust_id]
   \<and> map_option tags (post_by_id (snd (update_handler env alice None hello_id
          (plain_body (Some (TagsString ''rust,python''))) blog)) hello_id)
        = Some [rust_id, ''000000000000000000000000'']
   \<and> tag_counts (snd (update_handler env alice None hello_id
          (plain_body (Some (TagsString ''rust,python''))) blog))
        = [(''go'', 0), (''rust'', 1), (''python'', 1)]"
proof -
  have pt: "process_tags (tagNames_of (b_tags (plain_body (Some (TagsString ''rust,python''))))) [] blog =
     ([rust_id, ''000000000000000000000000''],
      blog\<lparr>Tag_coll := Tag_coll blog @
              [\<lparr>tag_id = ''000000000000000000000000'', name = ''python'', postCount = 0\<rparr>],
           oid_counter := 1\<rparr>)"
    by code_simp
  have before: "tag_counts blog = [(''go'', 1), (''rust'', 2)]" by code_simp
  have old: "map_option tags (post_by_id blog hello_id) = Some [go_id, rust_id]" by code_simp
  have new: "map_option tags (post_by_id (snd (update_handler env alice None hello_id
          (plain_body (Some (TagsString ''rust,python''))) blog)) hello_id)
        = Some [rust_id, ''000000000000000000000000'']"
    unfolding update_handler_stored [OF plain_body_valid hello_post_found hello_post_author pt,
        unfolded hello_post_id]
    by (simp add: Object_assign_def)
  have after: "tag_counts (snd (update_handler env alice None hello_id
          (plain_body (Some (TagsString ''rust,python''))) blog))
        = [(''go'', 0), (''rust'', 1), (''python'', 1)]"
    unfolding update_handler_Tag_coll [OF plain_body_valid hello_post_found hello_post_author pt]
    by code_simp
  from before old new after show ?thesis by simp
qed

text \<open>
  Claim C3: an update whose tag list resolves to the current tag set of the post changes
  no count. In the handler such an update decrements every tag of the post: with the
  tags \<open>go\<close> and \<open>rust\<close> sent again, the counts 1 and 2 become 0 and 1.
\<close>

theorem update_same_tags_decrements:
  "tags hello_post = [go_id, rust_id]
   \<and> fst (process_tags (tagNames_of (Some (TagsString ''go,rust''))) [] blog) = [go_id, rust_id]
   \<and> tag_counts blog = [(''go'', 1), (''rust'', 2)]
   \<and> tag_counts (snd (update_handler env alice None hello_id
          (plain_body (Some (TagsString ''go,rust''))) blog))
        = [(''go'', 0), (''rust'', 1)]"
proof -
  have pt: "process_tags (tagNames_of (b_tags (plain_body (Some (TagsString ''go,rust''))))) [] blog =
     ([go_id, rust_id], blog)"
    by code_simp
  have same: "fst (process_tags (tagNames_of (Some (TagsString ''go,rust''))) [] blog) = [go_id, rust_id]"
    by code_simp
  have before: "tag_counts blog = [(''go'', 1), (''rust'', 2)]" by code_simp
  have old: "tags hello_post = [go_id, rust_id]" by (simp add: hello_post_def)
  have after: "tag_counts (snd (update_handler env alice None hello_id
          (plain_body (Some (TagsString ''go,rust''))) blog))
        = [(''go'', 0), (''rust'', 1)]"
    unfolding update_handler_Tag_coll [OF plain_body_valid hello_post_found hello_post_author pt]
    by code_simp
  from before old same after show ?thesis by simp
qed

subsection \<open>Delete\<close>

text \<open>
  Claim C4: when the author deletes an existing post, the handler makes two writes. The
  store left by the first write still holds the post and has the count of every tag of
  the post lowered by exactly one and every other count as before; the store left by the
  second write has the same counts and no longer holds the post. That second store is
  the one the handler ends with, and every other post is as before.
\<close>

theorem delete_releases_tags_then_removes:
  "Post_findById d i = Inr (Some post) \<and> author post = user \<longrightarrow>
     delete_trace env user i d =
       (json 200 ''Post deleted successfully'' NoPayload,
        [Tag_updateMany_inc d (tags post) (- 1),
         remove_post (Tag_updateMany_inc d (tags post) (- 1)) (post_id post)])
     \<and> post_by_id (snd (delete_trace env user i d) ! 0) (post_id post) = Some post
     \<and> (\<forall>t. postCount_of (snd (delete_trace env user i d) ! 0) t =
            (if t \<in> set (tags post) then map_option (\<lambda>c. c - 1) (postCount_of d t)
             else postCount_of d t))
     \<and> post_by_id (snd (delete_trace env user i d) ! 1) (post_id post) = None
     \<and> (\<forall>t. postCount_of (snd (delete_trace env user i d) ! 1) t =
            postCount_of (snd (delete_trace env user i d) ! 0) t)
     \<and> delete_handler env user i d =
          (json 200 ''Post deleted successfully'' NoPayload, snd (delete_trace env user i d) ! 1)
     \<and> (\<forall>t. postCount_of (snd (delete_handler env user i d)) t =
            (if t \<in> set (tags post) then map_option (\<lambda>c. c - 1) (postCount_of d t)
             else postCount_of d t))
     \<and> post_by_id (snd (delete_handler env user i d)) (post_id post) = None
     \<and> (\<forall>j. j \<noteq> post_id post \<longrightarrow>
            post_by_id (snd (delete_handler env user i d)) j = post_by_id d j)"
proof (intro impI)
  assume ok: "Post_findById d i = Inr (Some post) \<and> author post = user"
  then have found: "post_by_id d (post_id post) = Some post"
    and cast: "cast_ObjectId i = Some (post_id post)"
    using Post_findById_Some by blast+
  from ok cast have trace: "delete_trace env user i d =
       (json 200 ''Post deleted successfully'' NoPayload,
        [Tag_updateMany_inc d (tags post) (- 1),
         remove_post (Tag_updateMany_inc d (tags post) (- 1)) (post_id post)])"
    by (simp add: delete_trace_def Post_findByIdAndDelete_def Let_def)
  have run: "delete_handler env user i d =
       (json 200 ''Post deleted successfully'' NoPayload,
        remove_post (Tag_updateMany_inc d (tags post) (- 1)) (post_id post))"
    by (simp add: delete_handler_def trace)
  show "delete_trace env user i d =
       (json 200 ''Post deleted successfully'' NoPayload,
        [Tag_updateMany_inc d (tags post) (- 1),
         remove_post (Tag_updateMany_inc d (tags post) (- 1)) (post_id post)])
     \<and> post_by_id (snd (delete_trace env user i d) ! 0) (post_id post) = Some post
     \<and> (\<forall>t. postCount_of (snd (delete_trace env user i d) ! 0) t =
            (if t \<in> set (tags post) then map_option (\<lambda>c. c - 1) (postCount_of d t)
             else postCount_of d t))
     \<and> post_by_id (snd (delete_trace env user i d) ! 1) (post_id post) = None
     \<and> (\<forall>t. postCount_of (snd (delete_trace env user i d) ! 1) t =
            postCount_of (snd (delete_trace env user i d) ! 0) t)
     \<and> delete_handler env user i d =
          (json 200 ''Post deleted successfully'' NoPayload, snd (delete_trace env user i d) ! 1)
     \<and> (\<forall>t. postCount_of (snd (delete_handler env user i d)) t =
            (if t \<in> set (tags post) then map_option (\<lambda>c. c - 1) (postCount_of d t)
             else postCount_of d t))
     \<and> post_by_id (snd (delete_handler env user i d)) (post_id post) = None
     \<and> (\<forall>j. j \<noteq> post_id post \<longrightarrow>
            post_by_id (snd (delete_handler env user i d)) j = post_by_id d j)"
    by (simp add: trace run found postCount_of_updateMany post_by_id_delete)
qed

theorem delete_releases_tags_then_removes_witness:
  "Post_findById blog hello_id = Inr (Some hello_post) \<and> author hello_post = alice
   \<and> tags hello_post = [go_id, rust_id]
   \<and> postCount_of blog go_id = Some 1 \<and> postCount_of blog rust_id = Some 2
   \<and> length (snd (delete_trace None alice hello_id blog)) = 2
   \<and> post_by_id (snd (delete_trace None alice hello_id blog) ! 0) hello_id = Some hello_post
   \<and> postCount_of (snd (delete_trace None alice hello_id blog) ! 0) go_id = Some 0
   \<and> postCount_of (snd (delete_trace None alice hello_id blog) ! 0) rust_id = Some 1
   \<and> post_by_id (snd (delete_trace None alice hello_id blog) ! 1) hello_id = None
   \<and> postCount_of (snd (delete_handler None alice hello_id blog)) go_id = Some 0
   \<and> postCount_of (snd (delete_handler None alice hello_id blog)) rust_id = Some 1
   \<and> post_by_id (snd (delete_handler None alice hello_id blog)) hello_id = None
   \<and> post_by_id (snd (delete_handler None alice hello_id blog)) draft_id = Some draft_post"
proof -
  have tg: "tags hello_post = [go_id, rust_id]" by (simp add: hello_post_def)
  have ne: "draft_id \<noteq> hello_id" by (simp add: draft_id_def hello_id_def)
  have dr: "post_by_id blog draft_id = Some draft_post"
    using Post_findById_Some [OF draft_post_found] by (simp add: draft_post_def)
  have h: "Post_findById blog hello_id = Inr (Some hello_post) \<and> author hello_post = alice"
    using hello_post_found hello_post_author by simp
  note r = delete_releases_tags_then_removes [where d = blog and i = hello_id and post = hello_post
      and user = alice and env = None, THEN mp, OF h, unfolded hello_post_id]
  from r have trace: "delete_trace None alice hello_id blog =
       (json 200 ''Post deleted successfully'' NoPayload,
        [Tag_updateMany_inc blog (tags hello_post) (- 1),
         remove_post (Tag_updateMany_inc blog (tags hello_post) (- 1)) hello_id])"
    by blast
  have len: "length (snd (delete_trace None alice hello_id blog)) = 2" by (simp add: trace)
  from r have still: "post_by_id (snd (delete_trace None alice hello_id blog) ! 0) hello_id = Some hello_post"
    by blast
  from r have released: "\<forall>t. postCount_of (snd (delete_trace None alice hello_id blog) ! 0) t =
            (if t \<in> set (tags hello_post) then map_option (\<lambda>c. c - 1) (postCount_of blog t)
             else postCount_of blog t)"
    by blast
  from r have removed: "post_by_id (snd (delete_trace None alice hello_id blog) ! 1) hello_id = None"
    by blast
  from r have counts: "\<forall>t. postCount_of (snd (delete_handler None alice hello_id blog)) t =
            (if t \<in> set (tags hello_post) then map_option (\<lambda>c. c - 1) (postCount_of blog t)
             else postCount_of blog t)"
    by blast
  from r have gone: "post_by_id (snd (delete_handler None alice hello_id blog)) hello_id = None"
    by blast
  from r have others: "\<forall>j. j \<noteq> hello_id \<longrightarrow>
      post_by_id (snd (delete_handler None alice hello_id blog)) j = post_by_id blog j"
    by blast
  have e1: "postCount_of (snd (delete_trace None alice hello_id blog) ! 0) go_id = Some 0"
    and e2: "postCount_of (snd (delete_trace None alice hello_id blog) ! 0) rust_id = Some 1"
    using released by (simp_all add: tg blog_counts)
  have c1: "postCount_of (snd (delete_handler None alice hello_id blog)) go_id = Some 0"
    and c2: "postCount_of (snd (delete_handler None alice hello_id blog)) rust_id = Some 1"
    using counts by (simp_all add: tg blog_counts)
  have kept: "post_by_id (snd (delete_handler None alice hello_id blog)) draft_id = Some draft_post"
    using others ne dr by simp
  show ?thesis
    using hello_post_found hello_post_author tg blog_counts len still e1 e2 removed c1 c2 gone kept
    by simp
qed

subsection \<open>Refusals of update and delete\<close>

text \<open>
  Claim C5 as stated: every update or delete of a missing post fails with 404. An update
  is validated before the post is looked up, so an update with a title of two characters
  for a missing post is answered with 400.
\<close>

theorem update_validates_before_lookup:
  "Post_findById blog missing_id = Inr None
   \<and> r_status (fst (update_handler None alice None missing_id short_body blog)) = 400
   \<and> snd (update_handler None alice None missing_id short_body blog) = blog"
proof -
  have "\<not> postValidation short_body" by code_simp
  then show ?thesis
    using missing_post_absent by (simp add: update_handler_def validation_failed_def json_def)
qed

text \<open>
  Claim C5, amended: for every delete request and every update request that passes
  validation, a missing post (or an id that is no ObjectId) is answered with 404, and a
  requester who is not the author with 403; an update that fails validation is answered
  with 400; in all these cases the store is left exactly as it was.
\<close>

theorem update_delete_refusals:
  "(\<not> postValidation b \<longrightarrow> update_handler env user upload i b d = (validation_failed, d))
   \<and> (postValidation b \<and> (Post_findById d i = Inr None \<or> Post_findById d i = Inl (CastError i)) \<longrightarrow>
      update_handler env user upload i b d = (not_found, d))
   \<and> (postValidation b \<and> Post_findById d i = Inr (Some post) \<and> author post \<noteq> user \<longrightarrow>
      update_handler env user upload i b d = (forbidden ''You can only edit your own posts'', d))
   \<and> (Post_findById d i = Inr None \<or> Post_findById d i = Inl (CastError i) \<longrightarrow>
      delete_handler env user i d = (not_found, d))
   \<and> (Post_findById d i = Inr (Some post) \<and> author post \<noteq> user \<longrightarrow>
      delete_handler env user i d = (forbidden ''You can only delete your own posts'', d))
   \<and> r_status validation_failed = 400 \<and> r_status not_found = 404 \<and> r_status (forbidden m) = 403"
  by (auto simp: update_handler_def delete_handler_def delete_trace_def CastError_def
        not_found_def forbidden_def validation_failed_def json_def)

theorem update_delete_refusals_witness:
  "\<not> postValidation short_body
   \<and> update_handler None bob None hello_id short_body blog = (validation_failed, blog)
   \<and> postValidation (plain_body None)
   \<and> Post_findById blog missing_id = Inr None
   \<and> update_handler None alice None missing_id (plain_body None) blog = (not_found, blog)
   \<and> delete_handler None alice missing_id blog = (not_found, blog)
   \<and> Post_findById blog ''notes'' = Inl (CastError ''notes'')
   \<and> update_handler None bob None ''notes'' (plain_body None) blog = (not_found, blog)
   \<and> delete_handler None bob ''notes'' blog = (not_found, blog)
   \<and> Post_findById blog hello_id = Inr (Some hello_post) \<and> author hello_post \<noteq> bob
   \<and> update_handler None bob None hello_id (plain_body None) blog
        = (forbidden ''You can only edit your own posts'', blog)
   \<and> delete_handler None bob hello_id blog
        = (forbidden ''You can only delete your own posts'', blog)"
proof -
  have nb: "author hello_post \<noteq> bob" by (simp add: hello_post_def alice_def bob_def)
  have ce: "Post_findById blog ''notes'' = Inl (CastError ''notes'')" by code_simp
  note v = plain_body_valid [of None]
  note r1 = update_delete_refusals [where d = blog and i = missing_id and b = "plain_body None"
      and env = None and user = alice and upload = None and post = hello_post]
  note r2 = update_delete_refusals [where d = blog and i = "''notes''" and b = "plain_body None"
      and env = None and user = bob and upload = None and post = hello_post]
  note r3 = update_delete_refusals [where d = blog and i = hello_id and b = "plain_body None"
      and env = None and user = bob and upload = None and post = hello_post]
  note r4 = update_delete_refusals [where d = blog and i = hello_id and b = short_body
      and env = None and user = bob and upload = None and post = hello_post]
  have nv: "\<not> postValidation short_body" by code_simp
  from r4 nv
  have v1: "update_handler None bob None hello_id short_body blog = (validation_failed, blog)"
    by blast
  from r1 v missing_post_absent
  have a1: "update_handler None alice None missing_id (plain_body None) blog = (not_found, blog)"
    and a2: "delete_handler None alice missing_id blog = (not_found, blog)"
    by blast+
  from r2 v ce
  have b1: "update_handler None bob None ''notes'' (plain_body None) blog = (not_found, blog)"
    and b2: "delete_handler None bob ''notes'' blog = (not_found, blog)"
    by blast+
  from r3 v hello_post_found nb
  have c1: "update_handler None bob None hello_id (plain_body None) blog
        = (forbidden ''You can only edit your own posts'', blog)"
    and c2: "delete_handler None bob hello_id blog
        = (forbidden ''You can only delete your own posts'', blog)"
    by blast+
  show ?thesis
    using nv v missing_post_absent ce hello_post_found nb v1 a1 a2 b1 b2 c1 c2 by simp
qed

subsection \<open>Read\<close>

text \<open>
  Claim C6: a read of a published post raises its \<open>viewCount\<close> by exactly one in the store
  and in the reply, whoever the caller is, and changes nothing else; a read of a post
  that is not published leaves the store as it was.
\<close>

theorem view_counted_when_published:
  "(get_lookup d i = Inr (Some post) \<and> status post = Some ''published'' \<longrightarrow>
      get_handler env role i d =
        (json 200 [] (PostPayload (Some (post\<lparr>viewCount := viewCount post + 1\<rparr>))),
         Post_inc_viewCount d (post_id post))
      \<and> (\<forall>j. post_by_id (snd (get_handler env role i d)) j =
             (if j = post_id post
              then map_option (\<lambda>q. q\<lparr>viewCount := viewCount q + 1\<rparr>) (post_by_id d j)
              else post_by_id d j))
      \<and> Tag_coll (snd (get_handler env role i d)) = Tag_coll d)
   \<and> (get_lookup d i = Inr (Some post) \<and> status post \<noteq> Some ''published'' \<longrightarrow>
      snd (get_handler env role i d) = d
      \<and> (fst (get_handler env role i d) = not_found
           \<or> fst (get_handler env role i d) = json 200 [] (PostPayload (Some post))))"
  by (auto simp: get_handler_def post_by_id_inc_viewCount split: option.splits)

theorem view_counted_when_published_witness:
  "get_lookup blog hello_id = Inr (Some hello_post) \<and> status hello_post = Some ''published''
   \<and> post_by_id blog hello_id = Some hello_post \<and> viewCount hello_post = 7
   \<and> post_by_id (snd (get_handler None None hello_id blog)) hello_id
        = Some (hello_post\<lparr>viewCount := 8\<rparr>)
   \<and> get_lookup blog ''notes'' = Inr (Some draft_post) \<and> status draft_post \<noteq> Some ''published''
   \<and> snd (get_handler None (Some ''admin'') ''notes'' blog) = blog"
proof -
  have vc: "viewCount hello_post = 7" and st: "status hello_post = Some ''published''"
    and pid: "post_id hello_post = hello_id"
    by (simp_all add: hello_post_def)
  have ds: "status draft_post \<noteq> Some ''published''" by (simp add: draft_post_def)
  have g1: "get_lookup blog hello_id = Inr (Some hello_post)" by code_simp
  have g2: "get_lookup blog ''notes'' = Inr (Some draft_post)" by code_simp
  have b: "post_by_id blog hello_id = Some hello_post"
    using Post_findById_Some [OF hello_post_found] by (simp add: hello_post_id)
  have h1: "get_lookup blog hello_id = Inr (Some hello_post) \<and> status hello_post = Some ''published''"
    using g1 st by simp
  have h2: "get_lookup blog ''notes'' = Inr (Some draft_post) \<and> status draft_post \<noteq> Some ''published''"
    using g2 ds by simp
  note r1 = view_counted_when_published [where d = blog and i = hello_id and post = hello_post
      and env = None and role = None, THEN conjunct1, THEN mp, OF h1]
  note r2 = view_counted_when_published [where d = blog and i = "''notes''" and post = draft_post
      and env = None and role = "Some ''admin''", THEN conjunct2, THEN mp, OF h2]
  from r1 have "\<forall>j. post_by_id (snd (get_handler None None hello_id blog)) j =
             (if j = post_id hello_post
              then map_option (\<lambda>q. q\<lparr>viewCount := viewCount q + 1\<rparr>) (post_by_id blog j)
              else post_by_id blog j)"
    by blast
  then have seen: "post_by_id (snd (get_handler None None hello_id blog)) hello_id
       = Some (hello_post\<lparr>viewCount := 8\<rparr>)"
    by (simp add: pid b vc)
  from r2 have quiet: "snd (get_handler None (Some ''admin'') ''notes'' blog) = blog" by blast
  show ?thesis
    using g1 g2 st ds by (simp add: seen quiet b vc)
qed

subsection \<open>Like\<close>

text \<open>
  Claim C7: a like of an existing published post raises its \<open>likeCount\<close> by exactly one
  and changes nothing else, and \<open>n\<close> likes in a row raise it by \<open>n\<close>; a like of a missing
  post or of one that is not published is answered with 404 and the store is left as it
  was.
\<close>

theorem like_increments_published_only:
  "(Post_findById d i = Inr (Some post) \<and> status post = Some ''published'' \<longrightarrow>
      like_handler env i d =
        (json 200 ''Post liked successfully'' (LikePayload (likeCount post + 1)),
         Post_save d (post\<lparr>likeCount := likeCount post + 1\<rparr>))
      \<and> post_by_id (snd (like_handler env i d)) (post_id post) =
           Some (post\<lparr>likeCount := likeCount post + 1\<rparr>)
      \<and> (\<forall>j. j \<noteq> post_id post \<longrightarrow> post_by_id (snd (like_handler env i d)) j = post_by_id d j)
      \<and> Tag_coll (snd (like_handler env i d)) = Tag_coll d
      \<and> post_by_id (((\<lambda>s. snd (like_handler env i s)) ^^ n) d) (post_id post) =
           Some (post\<lparr>likeCount := likeCount post + int n\<rparr>))
   \<and> (Post_findById d i = Inr None \<or> Post_findById d i = Inl (CastError i)
        \<or> (Post_findById d i = Inr (Some post) \<and> status post \<noteq> Some ''published'') \<longrightarrow>
      like_handler env i d = (not_found, d) \<and> r_status not_found = 404)"
proof (intro conjI impI)
  assume ok: "Post_findById d i = Inr (Some post) \<and> status post = Some ''published''"
  then have f: "Post_findById d i = Inr (Some post)" and s: "status post = Some ''published''"
    by simp_all
  note run = like_handler_ok [OF f s, where env = env]
  show "like_handler env i d =
        (json 200 ''Post liked successfully'' (LikePayload (likeCount post + 1)),
         Post_save d (post\<lparr>likeCount := likeCount post + 1\<rparr>))"
    by (rule run(1))
  show "post_by_id (snd (like_handler env i d)) (post_id post) =
           Some (post\<lparr>likeCount := likeCount post + 1\<rparr>)"
    by (rule run(2))
  show "\<forall>j. j \<noteq> post_id post \<longrightarrow> post_by_id (snd (like_handler env i d)) j = post_by_id d j"
    by (simp add: run(1) post_by_id_Post_save)
  show "Tag_coll (snd (like_handler env i d)) = Tag_coll d"
    by (simp add: run(1))
  show "post_by_id (((\<lambda>s. snd (like_handler env i s)) ^^ n) d) (post_id post) =
           Some (post\<lparr>likeCount := likeCount post + int n\<rparr>)"
    using Post_findById_Some [OF like_handler_repeat [OF f s, where env = env and n = n]] by simp
next
  assume "Post_findById d i = Inr None \<or> Post_findById d i = Inl (CastError i)
        \<or> (Post_findById d i = Inr (Some post) \<and> status post \<noteq> Some ''published'')"
  then show "like_handler env i d = (not_found, d)"
    by (auto simp: like_handler_def CastError_def)
next
  show "r_status not_found = 404" by (simp add: not_found_def json_def)
qed

theorem like_increments_published_only_witness:
  "Post_findById blog hello_id = Inr (Some hello_post) \<and> status hello_post = Some ''published''
   \<and> likeCount hello_post = 3
   \<and> post_by_id (snd (like_handler None hello_id blog)) hello_id
        = Some (hello_post\<lparr>likeCount := 4\<rparr>)
   \<and> post_by_id (((\<lambda>s. snd (like_handler None hello_id s)) ^^ 2) blog) hello_id
        = Some (hello_post\<lparr>likeCount := 5\<rparr>)
   \<and> Post_findById blog draft_id = Inr (Some draft_post) \<and> status draft_post \<noteq> Some ''published''
   \<and> like_handler None draft_id blog = (not_found, blog)
   \<and> Post_findById blog missing_id = Inr None
   \<and> like_handler None missing_id blog = (not_found, blog)"
proof -
  have lc: "likeCount hello_post = 3" and st: "status hello_post = Some ''published''"
    by (simp_all add: hello_post_def)
  have ds: "status draft_post \<noteq> Some ''published''" by (simp add: draft_post_def)
  have h1: "Post_findById blog hello_id = Inr (Some hello_post) \<and> status hello_post = Some ''published''"
    using hello_post_found st by simp
  have h2: "Post_findById blog draft_id = Inr None \<or> Post_findById blog draft_id = Inl (CastError draft_id)
     \<or> (Post_findById blog draft_id = Inr (Some draft_post) \<and> status draft_post \<noteq> Some ''published'')"
    using draft_post_found ds by simp
  have h3: "Post_findById blog missing_id = Inr None \<or> Post_findById blog missing_id = Inl (CastError missing_id)
     \<or> (Post_findById blog missing_id = Inr (Some hello_post) \<and> status hello_post \<noteq> Some ''published'')"
    using missing_post_absent by simp
  note r1 = like_increments_published_only [where d = blog and i = hello_id and post = hello_post
      and env = None and n = 2, THEN conjunct1, THEN mp, OF h1]
  note r2 = like_increments_published_only [where d = blog and i = draft_id and post = draft_post
      and env = None and n = 0, THEN conjunct2, THEN mp, OF h2]
  note r3 = like_increments_published_only [where d = blog and i = missing_id and post = hello_post
      and env = None and n = 0, THEN conjunct2, THEN mp, OF h3]
  from r1 have once: "post_by_id (snd (like_handler None hello_id blog)) (post_id hello_post)
       = Some (hello_post\<lparr>likeCount := likeCount hello_post + 1\<rparr>)"
    by blast
  from r1 have twice: "post_by_id (((\<lambda>s. snd (like_handler None hello_id s)) ^^ 2) blog)
         (post_id hello_post)
       = Some (hello_post\<lparr>likeCount := likeCount hello_post + int 2\<rparr>)"
    by blast
  from r2 have draft: "like_handler None draft_id blog = (not_found, blog)" by blast
  from r3 have missing: "like_handler None missing_id blog = (not_found, blog)" by blast
  show ?thesis
    using hello_post_found st draft_post_found ds missing_post_absent once twice
    by (simp add: draft missing lc hello_post_id)
qed

subsection \<open>Update: which fields are kept\<close>

text \<open>
  Claim C8 as stated: an update that omits \<open>excerpt\<close> or \<open>status\<close> leaves them as they
  were. The handler assigns them as \<open>undefined\<close>: a published post with an excerpt,
  updated by a body without the two fields, has neither afterwards.
\<close>

theorem update_omitted_fields_cleared:
  "post_by_id blog hello_id = Some hello_post
   \<and> status hello_post = Some ''published'' \<and> excerpt hello_post = Some ''An excerpt''
   \<and> b_status (plain_body (Some (TagsString ''go,rust''))) = None
   \<and> b_excerpt (plain_body (Some (TagsString ''go,rust''))) = None
   \<and> map_option status (post_by_id (snd (update_handler None alice None hello_id
        (plain_body (Some (TagsString ''go,rust''))) blog)) hello_id) = Some None
   \<and> map_option excerpt (post_by_id (snd (update_handler None alice None hello_id
        (plain_body (Some (TagsString ''go,rust''))) blog)) hello_id) = Some None"
proof -
  have pt: "process_tags (tagNames_of (b_tags (plain_body (Some (TagsString ''go,rust''))))) [] blog =
     ([go_id, rust_id], blog)"
    by code_simp
  have b: "post_by_id blog hello_id = Some hello_post"
    using Post_findById_Some [OF hello_post_found] by (simp add: hello_post_id)
  have f: "status hello_post = Some ''published''" "excerpt hello_post = Some ''An excerpt''"
    by (simp_all add: hello_post_def)
  show ?thesis
    unfolding update_handler_stored [OF plain_body_valid hello_post_found hello_post_author pt,
        unfolded hello_post_id] b
    by (simp add: Object_assign_def plain_body_def f)
qed

text \<open>
  Claim C8, amended: after an accepted update, \<open>featured\<close> is the value of the body when
  it carries one and the stored value otherwise; \<open>coverImage\<close> is the path of the
  uploaded file when there is one and the stored path otherwise; the id, the author and
  the counters are the stored ones; the title and the content are the trimmed ones of
  the body; \<open>excerpt\<close>, \<open>seoTitle\<close> and \<open>seoDescription\<close> are the ones of the body, absent
  when the body omits them; \<open>status\<close> is the one of the body when the body carries one.
\<close>

theorem update_field_assignment:
  "postValidation b \<and> Post_findById d i = Inr (Some post) \<and> author post = user \<longrightarrow>
     (\<exists>post'. post_by_id (snd (update_handler env user upload i b d)) (post_id post) = Some post'
        \<and> r_payload (fst (update_handler env user upload i b d)) = PostPayload (Some post')
        \<and> featured post' = (case b_featured b of None \<Rightarrow> featured post | Some f \<Rightarrow> f)
        \<and> coverImage post' = (case upload of None \<Rightarrow> coverImage post | Some f \<Rightarrow> upload_path f)
        \<and> title post' = trim (or_empty (b_title b))
        \<and> content post' = trim (or_empty (b_content b))
        \<and> excerpt post' = b_excerpt b
        \<and> seoTitle post' = b_seoTitle b
        \<and> seoDescription post' = b_seoDescription b
        \<and> (\<forall>s. b_status b = Some s \<longrightarrow> status post' = Some s)
        \<and> post_id post' = post_id post \<and> author post' = author post
        \<and> viewCount post' = viewCount post \<and> likeCount post' = likeCount post)"
proof (intro impI)
  assume ok: "postValidation b \<and> Post_findById d i = Inr (Some post) \<and> author post = user"
  obtain tagIds d1 where pt: "process_tags (tagNames_of (b_tags b)) [] d = (tagIds, d1)"
    by (cases "process_tags (tagNames_of (b_tags b)) [] d") blast
  from ok have v: "postValidation b" and f: "Post_findById d i = Inr (Some post)"
    and a: "author post = user" by simp_all
  let ?p = "Object_assign (set_coverImage upload post) b tagIds"
  have "post_by_id (snd (update_handler env user upload i b d)) (post_id post) = Some ?p"
    by (rule update_handler_stored [OF v f a pt])
  moreover have "r_payload (fst (update_handler env user upload i b d)) = PostPayload (Some ?p)"
    by (simp add: update_handler_ok [OF v f a pt] json_def)
  moreover have "featured ?p = (case b_featured b of None \<Rightarrow> featured post | Some f \<Rightarrow> f)"
    "coverImage ?p = (case upload of None \<Rightarrow> coverImage post | Some f \<Rightarrow> upload_path f)"
    "title ?p = trim (or_empty (b_title b))" "content ?p = trim (or_empty (b_content b))"
    "excerpt ?p = b_excerpt b" "seoTitle ?p = b_seoTitle b"
    "seoDescription ?p = b_seoDescription b" "\<forall>s. b_status b = Some s \<longrightarrow> status ?p = Some s"
    "post_id ?p = post_id post"
    "author ?p = author post" "viewCount ?p = viewCount post"
    "likeCount ?p = likeCount post"
    by (simp_all add: Object_assign_def set_coverImage_def split: option.splits)
  ultimately show "\<exists>post'. post_by_id (snd (update_handler env user upload i b d)) (post_id post) = Some post'
        \<and> r_payload (fst (update_handler env user upload i b d)) = PostPayload (Some post')
        \<and> featured post' = (case b_featured b of None \<Rightarrow> featured post | Some f \<Rightarrow> f)
        \<and> coverImage post' = (case upload of None \<Rightarrow> coverImage post | Some f \<Rightarrow> upload_path f)
        \<and> title post' = trim (or_empty (b_title b))
        \<and> content post' = trim (or_empty (b_content b))
        \<and> excerpt post' = b_excerpt b
        \<and> seoTitle post' = b_seoTitle b
        \<and> seoDescription post' = b_seoDescription b
        \<and> (\<forall>s. b_status b = Some s \<longrightarrow> status post' = Some s)
        \<and> post_id post' = post_id post \<and> author post' = author post
        \<and> viewCount post' = viewCount post \<and> likeCount post' = likeCount post"
    by blast
qed

theorem update_field_assignment_witness:
  "postValidation ((plain_body None)\<lparr>b_status := Some ''draft''\<rparr>)
   \<and> Post_findById blog hello_id = Inr (Some hello_post)
   \<and> author hello_post = alice
   \<and> b_status ((plain_body None)\<lparr>b_status := Some ''draft''\<rparr>) = Some ''draft''
   \<and> status hello_post = Some ''published''
   \<and> (\<exists>post'. post_by_id (snd (update_handler None alice (Some ''new.png'') hello_id
                   ((plain_body None)\<lparr>b_status := Some ''draft''\<rparr>) blog)) hello_id = Some post'
        \<and> status post' = Some ''draft''
        \<and> featured post' = True \<and> coverImage post' = ''/uploads/posts/new.png''
        \<and> excerpt post' = None
        \<and> viewCount post' = 7 \<and> likeCount post' = 3 \<and> author post' = alice)"
proof -
  let ?b = "(plain_body None)\<lparr>b_status := Some ''draft''\<rparr>"
  have fields: "featured hello_post = True" "viewCount hello_post = 7" "likeCount hello_post = 3"
    "status hello_post = Some ''published''"
    by (simp_all add: hello_post_def)
  have bf: "b_featured ?b = None" "b_status ?b = Some ''draft''" "b_excerpt ?b = None"
    by (simp_all add: plain_body_def)
  have v: "postValidation ?b"
    using plain_body_valid [of None] by (simp add: postValidation_def)
  have h: "postValidation ?b \<and> Post_findById blog hello_id = Inr (Some hello_post)
     \<and> author hello_post = alice"
    using v hello_post_found hello_post_author by simp
  note r = update_field_assignment [where d = blog and i = hello_id and post = hello_post
      and b = ?b and env = None and user = alice and upload = "Some ''new.png''",
      THEN mp, OF h, unfolded hello_post_id]
  then obtain post' where
    p: "post_by_id (snd (update_handler None alice (Some ''new.png'') hello_id ?b blog)) hello_id
          = Some post'"
      "featured post' = (case b_featured ?b of None \<Rightarrow> featured hello_post | Some f \<Rightarrow> f)"
      "coverImage post' = (case Some ''new.png'' of None \<Rightarrow> coverImage hello_post | Some f \<Rightarrow> upload_path f)"
      "excerpt post' = b_excerpt ?b"
      "\<forall>s. b_status ?b = Some s \<longrightarrow> status post' = Some s"
      "viewCount post' = viewCount hello_post" "likeCount post' = likeCount hello_post"
      "author post' = author hello_post"
    by blast
  from p(5) bf(2) have st: "status post' = Some ''draft''" by blast
  have "status post' = Some ''draft''
        \<and> featured post' = True \<and> coverImage post' = ''/uploads/posts/new.png''
        \<and> excerpt post' = None
        \<and> viewCount post' = 7 \<and> likeCount post' = 3 \<and> author post' = alice"
    using p(2-4,6-8) st by (simp add: bf fields hello_post_author upload_path_def)
  with p(1) have "\<exists>post'. post_by_id (snd (update_handler None alice (Some ''new.png'') hello_id
                   ?b blog)) hello_id = Some post'
        \<and> status post' = Some ''draft''
        \<and> featured post' = True \<and> coverImage post' = ''/uploads/posts/new.png''
        \<and> excerpt post' = None
        \<and> viewCount post' = 7 \<and> likeCount post' = 3 \<and> author post' = alice"
    by blast
  with h bf(2) fields(4) show ?thesis by blast
qed

subsection \<open>Error replies\<close>







subsection \<open>Create: one count per tag\<close>

text \<open>
  Claim C10: an accepted create stores one new post whose \<open>tags\<close> are the ids the tag
  loop returns, with repetitions when a name is repeated; the count of a tag that existed
  rises by exactly one when the post refers to it and is unchanged otherwise, and a tag
  created by the request ends with count 1.
\<close>

theorem create_counts_each_tag_once:
  "postValidation b \<longrightarrow>
     (\<exists>post. Post_coll (snd (create_handler slugify user upload b d)) = Post_coll d @ [post]
        \<and> tags post = fst (process_tags (tagNames_of (b_tags b)) [] d)
        \<and> (\<forall>t. postCount_of (snd (create_handler slugify user upload b d)) t =
               (case postCount_of d t of
                  Some c \<Rightarrow> Some (if t \<in> set (tags post) then c + 1 else c)
                | None \<Rightarrow> if t \<in> set (tags post) then Some 1 else None)))"
proof (intro impI)
  assume v: "postValidation b"
  obtain tagIds d1 where pt: "process_tags (tagNames_of (b_tags b)) [] d = (tagIds, d1)"
    by (cases "process_tags (tagNames_of (b_tags b)) [] d") blast
  let ?np = "new_Post slugify user upload b tagIds"
  let ?post = "?np\<lparr>post_id := new_ObjectId d1\<rparr>"
  let ?d' = "snd (create_handler slugify user upload b d)"
  have run: "?d' = Tag_updateMany_inc (snd (Post_create d1 ?np)) tagIds 1"
    by (rule create_handler_valid [OF v pt])
  from process_tags_store [OF pt] have pc: "Post_coll d1 = Post_coll d" by simp
  have coll: "Post_coll ?d' = Post_coll d @ [?post]"
    by (simp add: run Post_create_def Let_def pc)
  have tg: "tags ?post = fst (process_tags (tagNames_of (b_tags b)) [] d)"
    by (simp add: pt tags_new_Post)
  have same: "postCount_of (snd (Post_create d1 ?np)) t = postCount_of d1 t" for t
    by (simp add: postCount_of_def tag_by_id_def Post_create_def Let_def)
  have cnt: "postCount_of ?d' t =
               (case postCount_of d t of
                  Some c \<Rightarrow> Some (if t \<in> set (tags ?post) then c + 1 else c)
                | None \<Rightarrow> if t \<in> set (tags ?post) then Some 1 else None)" for t
    by (simp add: run postCount_of_updateMany same process_tags_counts [OF pt] tags_new_Post
          split: option.splits)
  from coll tg cnt show "\<exists>post. Post_coll ?d' = Post_coll d @ [post]
        \<and> tags post = fst (process_tags (tagNames_of (b_tags b)) [] d)
        \<and> (\<forall>t. postCount_of ?d' t =
               (case postCount_of d t of
                  Some c \<Rightarrow> Some (if t \<in> set (tags post) then c + 1 else c)
                | None \<Rightarrow> if t \<in> set (tags post) then Some 1 else None))"
    by blast
qed

theorem create_counts_each_tag_once_witness:
  "postValidation (plain_body (Some (TagsArray [''go'', ''Go''])))
   \<and> postCount_of blog go_id = Some 1 \<and> postCount_of blog rust_id = Some 2
   \<and> (\<exists>post. Post_coll (snd (create_handler id bob None
                  (plain_body (Some (TagsArray [''go'', ''Go'']))) blog)) = Post_coll blog @ [post]
         \<and> tags post = [go_id, go_id]
         \<and> postCount_of (snd (create_handler id bob None
               (plain_body (Some (TagsArray [''go'', ''Go'']))) blog)) go_id = Some 2
         \<and> postCount_of (snd (create_handler id bob None
               (plain_body (Some (TagsArray [''go'', ''Go'']))) blog)) rust_id = Some 2)"
proof -
  let ?b = "plain_body (Some (TagsArray [''go'', ''Go'']))"
  have pt: "fst (process_tags (tagNames_of (b_tags ?b)) [] blog) = [go_id, go_id]"
    by code_simp
  have ne: "rust_id \<noteq> go_id" by (simp add: rust_id_def go_id_def)
  note v = plain_body_valid [of "Some (TagsArray [''go'', ''Go''])"]
  from create_counts_each_tag_once [where b = ?b and d = blog and slugify = id and user = bob
      and upload = None, THEN mp, OF v]
  obtain post where
    p: "Post_coll (snd (create_handler id bob None ?b blog)) = Post_coll blog @ [post]"
      "tags post = fst (process_tags (tagNames_of (b_tags ?b)) [] blog)"
      "\<forall>t. postCount_of (snd (create_handler id bob None ?b blog)) t =
               (case postCount_of blog t of
                  Some c \<Rightarrow> Some (if t \<in> set (tags post) then c + 1 else c)
                | None \<Rightarrow> if t \<in> set (tags post) then Some 1 else None)"
    by blast
  have tg: "tags post = [go_id, go_id]" using p(2) pt by simp
  have c1: "postCount_of (snd (create_handler id bob None ?b blog)) go_id = Some 2"
    and c2: "postCount_of (snd (create_handler id bob None ?b blog)) rust_id = Some 2"
    using p(3) by (simp_all add: tg blog_counts ne)
  from p(1) tg c1 c2 have "\<exists>post. Post_coll (snd (create_handler id bob None ?b blog)) = Post_coll blog @ [post]
         \<and> tags post = [go_id, go_id]
         \<and> postCount_of (snd (create_handler id bob None ?b blog)) go_id = Some 2
         \<and> postCount_of (snd (create_handler id bob None ?b blog)) rust_id = Some 2"
    by blast
  with v blog_counts show ?thesis by blast
qed

end
